theory Spec2Isabelle
  imports Main "HOL-Library.Sublist"
begin

section \<open>The command-line front end (src/main.py)\<close>

subsection \<open>Python strings\<close>

text \<open>
  Python strings are modelled as \<^typ>\<open>string\<close>. The user-facing messages of the program
  are Chinese text; each print statement is a constructor of the type \<open>message\<close> below
  instead of a byte string.
\<close>

definition backslash :: char where
  "backslash = CHR 0x5C"

definition startswith :: "string \<Rightarrow> string \<Rightarrow> bool" where
  "startswith s p = prefix p s"

text \<open>
  \<open>s.replace(old, new)\<close> and \<open>s.replace(old, new, count)\<close>: occurrences are found from
  the left and do not overlap. Both call sites of the program pass a non-empty \<open>old\<close>;
  for an empty \<open>old\<close> these functions return \<open>s\<close>, which is not what Python does.
\<close>

fun str_replace :: "string \<Rightarrow> string \<Rightarrow> string \<Rightarrow> string" where
  "str_replace old new [] = []"
| "str_replace old new (c # cs) =
     (if old \<noteq> [] \<and> prefix old (c # cs)
      then new @ str_replace old new (drop (length old) (c # cs))
      else c # str_replace old new cs)"

fun str_replace_count :: "string \<Rightarrow> string \<Rightarrow> nat \<Rightarrow> string \<Rightarrow> string" where
  "str_replace_count old new 0 s = s"
| "str_replace_count old new (Suc n) [] = []"
| "str_replace_count old new (Suc n) (c # cs) =
     (if old \<noteq> [] \<and> prefix old (c # cs)
      then new @ str_replace_count old new n (drop (length old) (c # cs))
      else c # str_replace_count old new (Suc n) cs)"

text \<open>\<open>a or b\<close> on an optional string: \<open>None\<close> and the empty string are falsy.\<close>

fun py_or :: "string option \<Rightarrow> string \<Rightarrow> string" where
  "py_or None d = d"
| "py_or (Some s) d = (if s = [] then d else s)"

subsection \<open>The file system, the platform and the processing module\<close>

datatype node = Directory | RegularFile string

type_synonym filesystem = "string \<rightharpoonup> node"

definition os_path_exists :: "filesystem \<Rightarrow> string \<Rightarrow> bool" where
  "os_path_exists fs p = (fs p \<noteq> None)"

definition os_path_isfile :: "filesystem \<Rightarrow> string \<Rightarrow> bool" where
  "os_path_isfile fs p = (case fs p of Some (RegularFile text) \<Rightarrow> True | _ \<Rightarrow> False)"

text \<open>
  An exception is an instance of Python's class \<open>Exception\<close>, carrying its text: what
  \<open>except Exception\<close> catches.
\<close>

datatype exn = Exception string

text \<open>
  A \<open>ConfigParser\<close>: the defaults (the section \<open>DEFAULT\<close>) and the other sections, each
  a list of keys and values in insertion order.
\<close>

record config_parser =
  cfg_defaults :: "(string \<times> string) list"
  cfg_sections :: "(string \<times> (string \<times> string) list) list"

text \<open>
  What the program takes from its platform: whether it runs as a frozen executable, the
  directories of the executable and of the script, \<open>os.path.isabs\<close>, the path join of
  \<open>pathlib\<close> (\<open>str(a / b)\<close>), the INI parser of \<open>configparser\<close>, which merges the
  text of a file into a parser or raises, its interpolation of a value that holds a
  percent sign (from the options it may refer to, it gives the expanded value or
  raises), and the error, if any, with which the platform refuses to open a path for
  writing (the directory is missing or read-only).
\<close>

record env =
  frozen :: bool
  executable_parent :: string
  file_parent :: string
  os_path_isabs :: "string \<Rightarrow> bool"
  path_join :: "string \<Rightarrow> string \<Rightarrow> string"
  parse_ini :: "string \<Rightarrow> config_parser \<Rightarrow> exn + config_parser"
  interpolate :: "(string \<rightharpoonup> string) \<Rightarrow> string \<Rightarrow> exn + string"
  open_error :: "filesystem \<Rightarrow> string \<Rightarrow> exn option"

text \<open>
  The Override Table: a word is mapped to its accepted pronunciations, the first one and
  the others (a word has one or more).
\<close>

type_synonym override_table = "string \<rightharpoonup> string \<times> string list"

text \<open>
  Modelled from the spec: the module \<open>rime_processor_embedded\<close>, which main.py imports
  and which is not among the sources. Its two entry points are parameters of the model.
  \<open>load_custom_pinyin_from_directory\<close> builds the Override Table from a directory and
  writes nothing (section 4.1); \<open>process_files\<close> takes the table as read-only input
  (section 2) and writes the output files; it returns the exception it raised, if any,
  and the file system it leaves.
\<close>

record rime_processor =
  load_custom_pinyin_from_directory :: "string \<Rightarrow> filesystem \<Rightarrow> exn + override_table"
  process_files ::
    "override_table \<Rightarrow> string \<Rightarrow> string \<Rightarrow> filesystem \<Rightarrow> exn option \<times> filesystem"

text \<open>
  Modelled from the spec: the Override Table Builder of section 4.1, as far as the spec
  fixes it. A directory that does not exist is a configuration error; for a directory
  that exists the table is built by \<open>build\<close>, the reading of the override files.
\<close>

definition load_overrides ::
  "(string \<Rightarrow> filesystem \<Rightarrow> exn + override_table) \<Rightarrow> string \<Rightarrow> filesystem \<Rightarrow> exn + override_table"
where
  "load_overrides build directory fs =
     (if \<not> os_path_exists fs directory then Inl (Exception ''ConfigurationError'')
      else build directory fs)"

subsection \<open>Configuration\<close>

definition get_script_dir :: "env \<Rightarrow> string" where
  "get_script_dir e = (if frozen e then executable_parent e else file_parent e)"

definition default_settings :: "(string \<times> string) list" where
  "default_settings =
     [(''input_dir'', ''./input''),
      (''output_dir'', ''./output''),
      (''custom_dir'', ''./pinyin_data''),
      (''aux_sep_regex'', ''[;'' @ [backslash] @ ''[]'')]"

text \<open>
  \<open>config.read(path)\<close>: a file that cannot be opened is skipped; the text of a file that
  can be is parsed into the parser.
\<close>

definition config_read :: "env \<Rightarrow> filesystem \<Rightarrow> string \<Rightarrow> config_parser \<Rightarrow> exn + config_parser" where
  "config_read e fs path config =
     (case fs path of
        Some (RegularFile text) \<Rightarrow> parse_ini e text config
      | _ \<Rightarrow> Inr config)"

text \<open>The else branch of \<open>load_config\<close>: the file \<open>config.ini\<close> beside the script, if any.\<close>

definition read_default_config :: "env \<Rightarrow> filesystem \<Rightarrow> config_parser \<Rightarrow> exn + config_parser" where
  "read_default_config e fs config =
     (let script_dir = get_script_dir e;
          default_config = path_join e script_dir ''config.ini''
      in if os_path_exists fs default_config
         then config_read e fs default_config config
         else Inr config)"

definition load_config :: "env \<Rightarrow> filesystem \<Rightarrow> string option \<Rightarrow> exn + config_parser" where
  "load_config e fs config_file =
     (let config = \<lparr>cfg_defaults = default_settings, cfg_sections = []\<rparr> in
      case config_file of
        None \<Rightarrow> read_default_config e fs config
      | Some path \<Rightarrow>
          if path \<noteq> [] \<and> os_path_exists fs path
          then config_read e fs path config
          else read_default_config e fs config)"

text \<open>
  \<open>config['DEFAULT'][key]\<close>: a missing key raises \<open>KeyError\<close>; a value without a percent
  sign is returned as it is stored, a value with one is interpolated from the defaults,
  which may raise.
\<close>

definition config_default :: "env \<Rightarrow> config_parser \<Rightarrow> string \<Rightarrow> exn + string" where
  "config_default e config key =
     (case map_of (cfg_defaults config) key of
        None \<Rightarrow> Inl (Exception (''KeyError: '' @ key))
      | Some v \<Rightarrow>
          if CHR ''%'' \<in> set v then interpolate e (map_of (cfg_defaults config)) v
          else Inr v)"

text \<open>\<open>arg or config['DEFAULT'][key]\<close>: the configuration is read only when the argument is falsy.\<close>

definition config_default_or ::
  "env \<Rightarrow> string option \<Rightarrow> config_parser \<Rightarrow> string \<Rightarrow> exn + string"
where
  "config_default_or e arg config key =
     (if py_or arg [] \<noteq> [] then Inr (py_or arg []) else config_default e config key)"

text \<open>The settings that \<open>create_default_config\<close> writes, under the section \<open>Settings\<close>.\<close>

definition default_settings_file :: "(string \<times> string) list" where
  "default_settings_file =
     [(''input_dir'', ''./input''),
      (''output_dir'', ''./output''),
      (''custom_dir'', ''./pinyin_data''),
      (''aux_sep_regex'', ''[;'' @ [backslash] @ ''[]'')]"

text \<open>
  \<open>config.write(f)\<close>: the section \<open>DEFAULT\<close> first when it has keys, then every section,
  each as its header, its \<open>key = value\<close> lines (a line break inside a value is followed
  by a tab) and an empty line.
\<close>

definition write_section :: "string \<times> (string \<times> string) list \<Rightarrow> string" where
  "write_section sec =
     ''['' @ fst sec @ '']'' @ [CHR 0x0A]
     @ concat (map (\<lambda>(k, v). k @ '' = '' @ str_replace [CHR 0x0A] [CHR 0x0A, CHR 0x09] v @ [CHR 0x0A])
                   (snd sec))
     @ [CHR 0x0A]"

definition config_write :: "config_parser \<Rightarrow> string" where
  "config_write config =
     (if cfg_defaults config = [] then [] else write_section (''DEFAULT'', cfg_defaults config))
     @ concat (map write_section (cfg_sections config))"

subsection \<open>The program\<close>

text \<open>The parsed command line.\<close>

record args =
  arg_input :: "string option"
  arg_output :: "string option"
  arg_custom_dir :: "string option"
  arg_config :: "string option"
  arg_create_config :: bool

text \<open>One constructor for each print statement of main.py.\<close>

datatype message =
    ConfigCreated string
  | InputPathMissing string
  | CreateConfigHint
  | Banner
  | ShowInput string
  | ShowOutput string
  | ShowCustomDir string
  | Rule
  | AllDone
  | ErrorText string

text \<open>What a run does, in order: its prints and its calls.\<close>

datatype event =
    Print message
  | Call_create_default_config
  | Call_load_config
  | Call_load_custom_pinyin_from_directory string
  | Call_process_files string string

text \<open>
  How a run ends: \<open>main\<close> returns, \<open>sys.exit\<close> is called with a status, or an exception
  leaves \<open>main\<close>.
\<close>

datatype outcome = Returned | Exited nat | Uncaught exn

text \<open>
  A run: how it ends, what it did, the file system it leaves, and the Override Table held
  by the processing module (\<open>None\<close> until it is built).
\<close>

record run =
  outcome :: outcome
  trace :: "event list"
  files :: filesystem
  table :: "override_table option"

text \<open>
  \<open>open(path, 'w')\<close>: a directory cannot be opened for writing, and the platform may
  refuse the path; in both cases the call raises and nothing is written.
\<close>

definition open_for_writing :: "env \<Rightarrow> filesystem \<Rightarrow> string \<Rightarrow> exn option" where
  "open_for_writing e fs path =
     (case fs path of
        Some Directory \<Rightarrow> Some (Exception ''IsADirectoryError'')
      | _ \<Rightarrow> open_error e fs path)"

text \<open>
  \<open>create_default_config\<close>: the result is the exception raised by \<open>open\<close>, or the path
  returned and the print made, with the file system that holds the written file.
\<close>

definition create_default_config ::
  "env \<Rightarrow> filesystem \<Rightarrow> exn + (string \<times> message list) \<times> filesystem"
where
  "create_default_config e fs =
     (let script_dir = get_script_dir e;
          config_file = path_join e script_dir ''config.ini'';
          config = \<lparr>cfg_defaults = [], cfg_sections = [(''Settings'', default_settings_file)]\<rparr>
      in case open_for_writing e fs config_file of
           Some x \<Rightarrow> Inl x
         | None \<Rightarrow>
             Inr ((config_file, [ConfigCreated config_file]),
                  fs(config_file \<mapsto> RegularFile (config_write config))))"

text \<open>Lines 115 to 132 of \<open>main\<close>: the three paths, from the command line or the configuration.\<close>

definition absolute :: "env \<Rightarrow> string \<Rightarrow> string" where
  "absolute e p = (if \<not> os_path_isabs e p then path_join e (get_script_dir e) p else p)"

definition resolve_paths :: "env \<Rightarrow> args \<Rightarrow> config_parser \<Rightarrow> exn + string \<times> string \<times> string" where
  "resolve_paths e a config =
     (case config_default_or e (arg_input a) config ''input_dir'' of
        Inl x \<Rightarrow> Inl x
      | Inr input_dir \<Rightarrow>
     (case config_default_or e (arg_output a) config ''output_dir'' of
        Inl x \<Rightarrow> Inl x
      | Inr output_dir \<Rightarrow>
     (case config_default_or e (arg_custom_dir a) config ''custom_dir'' of
        Inl x \<Rightarrow> Inl x
      | Inr custom_dir \<Rightarrow>
          Inr (absolute e input_dir, absolute e output_dir, absolute e custom_dir))))"

text \<open>
  Lines 134 to 148: the check of the input path. The result is the prints made and the
  path to go on with, or \<open>None\<close> where the program calls \<open>sys.exit(1)\<close>.
\<close>

definition check_input_path :: "filesystem \<Rightarrow> string \<Rightarrow> message list \<times> string option" where
  "check_input_path fs input_dir =
     (if \<not> os_path_exists fs input_dir \<and> \<not> os_path_isfile fs input_dir then
        if startswith input_dir ''Z:'' then
          let linux_path =
                str_replace [backslash] ''/'' (str_replace_count ''Z:'' [] 1 input_dir)
          in if os_path_exists fs linux_path then ([], Some linux_path)
             else ([InputPathMissing input_dir, CreateConfigHint], None)
        else ([InputPathMissing input_dir, CreateConfigHint], None)
      else ([], Some input_dir))"

text \<open>Lines 150 to 168: the banner and the try block.\<close>

definition banner :: "string \<Rightarrow> string \<Rightarrow> string \<Rightarrow> event list" where
  "banner input_dir output_dir custom_dir =
     map Print [Banner, ShowInput input_dir, ShowOutput output_dir, ShowCustomDir custom_dir, Rule]"

definition process :: "rime_processor \<Rightarrow> filesystem \<Rightarrow> string \<Rightarrow> string \<Rightarrow> string \<Rightarrow> run" where
  "process rp fs input_dir output_dir custom_dir =
     (case load_custom_pinyin_from_directory rp custom_dir fs of
        Inl (Exception text) \<Rightarrow>
          \<lparr>outcome = Exited 1,
           trace = [Call_load_custom_pinyin_from_directory custom_dir, Print (ErrorText text)],
           files = fs, table = None\<rparr>
      | Inr tbl \<Rightarrow>
          (case process_files rp tbl input_dir output_dir fs of
             (Some (Exception text), fs') \<Rightarrow>
               \<lparr>outcome = Exited 1,
                trace = [Call_load_custom_pinyin_from_directory custom_dir,
                         Call_process_files input_dir output_dir, Print (ErrorText text)],
                files = fs', table = Some tbl\<rparr>
           | (None, fs') \<Rightarrow>
               \<lparr>outcome = Returned,
                trace = [Call_load_custom_pinyin_from_directory custom_dir,
                         Call_process_files input_dir output_dir, Print AllDone],
                files = fs', table = Some tbl\<rparr>))"

definition main :: "env \<Rightarrow> rime_processor \<Rightarrow> args \<Rightarrow> filesystem \<Rightarrow> run" where
  "main e rp a fs =
     (if arg_create_config a then
        (case create_default_config e fs of
           Inl x \<Rightarrow>
             \<lparr>outcome = Uncaught x, trace = [Call_create_default_config],
              files = fs, table = None\<rparr>
         | Inr ((config_file, prints), fs') \<Rightarrow>
             \<lparr>outcome = Returned, trace = Call_create_default_config # map Print prints,
              files = fs', table = None\<rparr>)
      else
        (case load_config e fs (arg_config a) of
           Inl x \<Rightarrow> \<lparr>outcome = Uncaught x, trace = [Call_load_config], files = fs, table = None\<rparr>
         | Inr config \<Rightarrow>
        (case resolve_paths e a config of
           Inl x \<Rightarrow> \<lparr>outcome = Uncaught x, trace = [Call_load_config], files = fs, table = None\<rparr>
         | Inr (input_dir, output_dir, custom_dir) \<Rightarrow>
        (case check_input_path fs input_dir of
           (prints, None) \<Rightarrow>
             \<lparr>outcome = Exited 1, trace = Call_load_config # map Print prints,
              files = fs, table = None\<rparr>
         | (prints, Some input_dir') \<Rightarrow>
             (let r = process rp fs input_dir' output_dir custom_dir
              in r\<lparr>trace := Call_load_config # map Print prints
                             @ banner input_dir' output_dir custom_dir @ trace r\<rparr>)))))"

subsection \<open>Example runs\<close>

text \<open>
  A Windows-like platform (as under Wine), a command line naming an input on drive \<open>Z:\<close>
  and one asking for the default configuration, some file systems (in the last one
  \<open>config.ini\<close> is a directory), and a processing module that builds an empty table and
  writes nothing.
\<close>

definition wine_env :: env where
  "wine_env =
     \<lparr>frozen = True,
      executable_parent = ''Z:'' @ [backslash] @ ''app'',
      file_parent = ''Z:'' @ [backslash] @ ''app'',
      os_path_isabs = (\<lambda>p. startswith p ''Z:'' \<or> startswith p ''/''),
      path_join = (\<lambda>d p. d @ [backslash] @ p),
      parse_ini = (\<lambda>text config. Inr config),
      interpolate = (\<lambda>options v. Inl (Exception ''InterpolationSyntaxError'')),
      open_error = (\<lambda>fs path. None)\<rparr>"

definition wine_args :: args where
  "wine_args =
     \<lparr>arg_input = Some (''Z:'' @ [backslash] @ ''data''),
      arg_output = Some ''/out'',
      arg_custom_dir = Some ''/pinyin'',
      arg_config = None,
      arg_create_config = False\<rparr>"

definition wine_fs :: filesystem where
  "wine_fs = [''/data'' \<mapsto> Directory, ''/pinyin'' \<mapsto> Directory]"

definition empty_fs :: filesystem where
  "empty_fs = Map.empty"

definition no_pinyin_fs :: filesystem where
  "no_pinyin_fs = [''/data'' \<mapsto> Directory]"

definition create_args :: args where
  "create_args = wine_args\<lparr>arg_create_config := True\<rparr>"

definition blocked_fs :: filesystem where
  "blocked_fs = [''Z:'' @ [backslash] @ ''app'' @ [backslash] @ ''config.ini'' \<mapsto> Directory]"

definition quiet_processor :: rime_processor where
  "quiet_processor =
     \<lparr>load_custom_pinyin_from_directory = load_overrides (\<lambda>directory fs. Inr Map.empty),
      process_files = (\<lambda>tbl input_dir output_dir fs. (None, fs))\<rparr>"

text \<open>The two calls into the processing module, as predicates on events.\<close>

definition is_load :: "event \<Rightarrow> bool" where
  "is_load ev = (case ev of Call_load_custom_pinyin_from_directory d \<Rightarrow> True | _ \<Rightarrow> False)"

definition is_process :: "event \<Rightarrow> bool" where
  "is_process ev = (case ev of Call_process_files i out \<Rightarrow> True | _ \<Rightarrow> False)"

subsection \<open>Character classes\<close>

text \<open>
  The characters matched by a regular expression that is one bracket expression, as the
  module \<open>re\<close> reads it: between the brackets a character stands for itself and a
  backslash before a character that is not alphanumeric stands for that character.
  Ranges, negation, class escapes and a closing bracket right after the opening one
  (which \<open>re\<close> reads as a literal) are outside this fragment, and so is a pattern that
  \<open>re\<close> refuses (\<open>None\<close>).
\<close>

definition alphanumeric :: "char \<Rightarrow> bool" where
  "alphanumeric c =
     (c \<in> set ''abcdefghijklmnopqrstuvwxyzABCDEFGHIJKLMNOPQRSTUVWXYZ0123456789'')"

fun class_items :: "string \<Rightarrow> char list option" where
  "class_items [] = None"
| "class_items [c] = (if c = CHR '']'' then Some [] else None)"
| "class_items (c # d # cs) =
     (if c = CHR '']'' \<or> c = CHR ''^'' \<or> c = CHR ''-'' then None
      else if c = backslash then
        (if alphanumeric d then None else map_option ((#) d) (class_items cs))
      else map_option ((#) c) (class_items (d # cs)))"

definition char_class :: "string \<Rightarrow> char list option" where
  "char_class pattern =
     (case pattern of
        [] \<Rightarrow> None
      | c # cs \<Rightarrow> if c = CHR ''['' \<and> \<not> prefix '']'' cs then class_items cs else None)"

text \<open>The text of the generated \<open>config.ini\<close>.\<close>

definition default_config_text :: string where
  "default_config_text =
     ''[Settings]'' @ [CHR 0x0A]
     @ ''input_dir = ./input'' @ [CHR 0x0A]
     @ ''output_dir = ./output'' @ [CHR 0x0A]
     @ ''custom_dir = ./pinyin_data'' @ [CHR 0x0A]
     @ ''aux_sep_regex = [;'' @ [backslash] @ ''[]'' @ [CHR 0x0A]
     @ [CHR 0x0A]"

section \<open>The correction engine (sections 3 and 4 of the spec)\<close>

text \<open>
  Modelled from the spec: the correction engine lives in \<open>rime_processor_embedded\<close>, which
  is not among the sources; the definitions of this section follow sections 3 and 4 of the
  spec. A dictionary line is a string, a byte per character.
\<close>

definition tab :: char where
  "tab = CHR 0x09"

text \<open>
  Modelled from the spec: the whitespace that may trail a line (section 3,
  \<open>trailing_whitespace\<close>): space, line feed, vertical tab, form feed and carriage return.
  The tab is the column delimiter: a trailing tab ends a column, so that the number of
  columns of a line is kept (section 4.3).
\<close>

definition is_space :: "char \<Rightarrow> bool" where
  "is_space c = (c \<in> {CHR '' '', CHR 0x0A, CHR 0x0B, CHR 0x0C, CHR 0x0D})"

text \<open>
  Modelled from the spec: splitting a line on the tab character and joining the columns
  again (section 4.3). A string without delimiter is one column.
\<close>

fun split_on :: "char \<Rightarrow> string \<Rightarrow> string list" where
  "split_on d [] = [[]]"
| "split_on d (c # cs) =
     (if c = d then [] # split_on d cs
      else (c # hd (split_on d cs)) # tl (split_on d cs))"

fun join :: "char \<Rightarrow> string list \<Rightarrow> string" where
  "join d [] = []"
| "join d [x] = x"
| "join d (x # y # ys) = x @ d # join d (y # ys)"

text \<open>Modelled from the spec: the \<open>DataLine\<close> of section 3.\<close>

record data_line =
  word :: string
  pinyin_field :: string
  remaining_columns :: "string list"
  trailing_whitespace :: string

text \<open>
  Modelled from the spec: the Dictionary Line Parser and Serializer of section 4.3. The
  trailing whitespace is the longest suffix of whitespace; what is before it is split on
  the tab. A line with fewer than two columns is malformed (\<open>None\<close>).
\<close>

definition line_body :: "string \<Rightarrow> string" where
  "line_body raw = rev (dropWhile is_space (rev raw))"

definition line_trailing :: "string \<Rightarrow> string" where
  "line_trailing raw = rev (takeWhile is_space (rev raw))"

definition parse_data_line :: "string \<Rightarrow> data_line option" where
  "parse_data_line raw =
     (case split_on tab (line_body raw) of
        w # p # rest \<Rightarrow>
          Some \<lparr>word = w, pinyin_field = p, remaining_columns = rest,
                trailing_whitespace = line_trailing raw\<rparr>
      | _ \<Rightarrow> None)"

definition serialize :: "data_line \<Rightarrow> string" where
  "serialize dl =
     join tab (word dl # pinyin_field dl # remaining_columns dl) @ trailing_whitespace dl"

text \<open>
  Modelled from the spec: the \<open>SplitPinyin\<close> of section 3 and the Auxiliary-Code Splitter
  of section 4.2. The separator pattern is a list of literal characters; the field is cut
  at the first of them that occurs.
\<close>

record split_pinyin =
  base :: string
  auxiliary :: "string option"
  separator_char :: "char option"

definition split_auxiliary :: "char list \<Rightarrow> string \<Rightarrow> split_pinyin" where
  "split_auxiliary seps field =
     (case dropWhile (\<lambda>c. c \<notin> set seps) field of
        [] \<Rightarrow> \<lparr>base = field, auxiliary = None, separator_char = None\<rparr>
      | c # rest \<Rightarrow>
          \<lparr>base = takeWhile (\<lambda>c. c \<notin> set seps) field, auxiliary = Some rest,
           separator_char = Some c\<rparr>)"

text \<open>
  Modelled from the spec: the \<open>CorrectionDecision\<close> of section 3 and the Correction Engine
  of section 4.4. An unchanged decision carries the field as it was.
\<close>

record correction_decision =
  changed :: bool
  new_pinyin_field :: string

definition decide :: "override_table \<Rightarrow> char list \<Rightarrow> data_line \<Rightarrow> correction_decision" where
  "decide tbl seps dl =
     (case tbl (word dl) of
        None \<Rightarrow> \<lparr>changed = False, new_pinyin_field = pinyin_field dl\<rparr>
      | Some (first, others) \<Rightarrow>
          let sp = split_auxiliary seps (pinyin_field dl) in
          if base sp \<in> set (first # others)
          then \<lparr>changed = False, new_pinyin_field = pinyin_field dl\<rparr>
          else \<lparr>changed = True,
                new_pinyin_field =
                  (case (separator_char sp, auxiliary sp) of
                     (Some c, Some aux) \<Rightarrow> first @ c # aux
                   | _ \<Rightarrow> first)\<rparr>)"

text \<open>
  Modelled from the spec: the pipeline of section 2 for one line of the data section:
  parse, decide, serialize. A malformed line is passed through raw.
\<close>

definition correct_line :: "override_table \<Rightarrow> char list \<Rightarrow> string \<Rightarrow> string" where
  "correct_line tbl seps raw =
     (case parse_data_line raw of
        None \<Rightarrow> raw
      | Some dl \<Rightarrow>
          let d = decide tbl seps dl
          in if changed d then serialize (dl\<lparr>pinyin_field := new_pinyin_field d\<rparr>)
             else serialize dl)"

text \<open>
  Modelled from the spec: the File Corrector of section 2 on the lines of one file. Lines
  up to and including the first data-section delimiter, and lines that begin with the
  comment marker, are passed through verbatim (section 4.3); \<open>in_header\<close> tells whether
  the file starts with a header.
\<close>

record dict_format =
  comment_marker :: string
  is_delimiter :: "string \<Rightarrow> bool"
  separators :: "char list"

fun correct_lines :: "dict_format \<Rightarrow> override_table \<Rightarrow> bool \<Rightarrow> string list \<Rightarrow> string list" where
  "correct_lines fmt tbl in_header [] = []"
| "correct_lines fmt tbl in_header (raw # rest) =
     (if in_header then raw # correct_lines fmt tbl (\<not> is_delimiter fmt raw) rest
      else if prefix (comment_marker fmt) raw then raw # correct_lines fmt tbl False rest
      else correct_line tbl (separators fmt) raw # correct_lines fmt tbl False rest)"

text \<open>
  A pronunciation that holds no separator character, no tab and no whitespace. The
  tokens of an override file are split on whitespace (section 4.1), so they hold none.
\<close>

definition plain_token :: "char list \<Rightarrow> string \<Rightarrow> bool" where
  "plain_token seps p = (\<forall>c \<in> set p. c \<notin> set seps \<and> c \<noteq> tab \<and> \<not> is_space c)"

subsection \<open>Example lines and tables\<close>

definition bei_line :: string where
  "bei_line = ''bei'' @ [tab] @ ''bei;1'' @ [tab] @ ''100'' @ [CHR 0x0A]"

definition bei_table :: override_table where
  "bei_table = [''bei'' \<mapsto> (''bei4'', [])]"

definition rime_format :: dict_format where
  "rime_format =
     \<lparr>comment_marker = ''#'', is_delimiter = (\<lambda>raw. line_body raw = ''...''),
      separators = '';[''\<rparr>"

definition semicolon_table :: override_table where
  "semicolon_table = [''w'' \<mapsto> (''a;b'', [])]"

definition semicolon_line :: string where
  "semicolon_line = ''w'' @ [tab] @ ''x''"

section \<open>Splitting and joining\<close>

lemma split_on_not_empty: "split_on d s \<noteq> []"
  by (induction s) auto

lemma join_split_on: "join d (split_on d s) = s"
proof (induction s)
  case Nil
  then show ?case by simp
next
  case (Cons c cs)
  obtain x xs where sp: "split_on d cs = x # xs"
    using split_on_not_empty [of d cs] by (cases "split_on d cs") auto
  show ?case
  proof (cases "c = d")
    case True
    then show ?thesis using Cons sp by simp
  next
    case False
    then show ?thesis using Cons sp by (cases xs) auto
  qed
qed

lemma split_on_no_delimiter: "x \<in> set (split_on d s) \<Longrightarrow> d \<notin> set x"
proof (induction s arbitrary: x)
  case Nil
  then show ?case by simp
next
  case (Cons c cs)
  obtain y ys where sp: "split_on d cs = y # ys"
    using split_on_not_empty [of d cs] by (cases "split_on d cs") auto
  show ?case using Cons sp by (auto split: if_splits)
qed

lemma split_on_join:
  "cols \<noteq> [] \<Longrightarrow> \<forall>x \<in> set cols. d \<notin> set x \<Longrightarrow> split_on d (join d cols) = cols"
proof (induction cols rule: join.induct)
  case (1 d)
  then show ?case by simp
next
  case (2 d x)
  then show ?case by (induction x) auto
next
  case (3 d x y ys)
  then have ih: "split_on d (join d (y # ys)) = y # ys" by simp
  from 3(3) have "d \<notin> set x" by simp
  then show ?case using ih by (induction x) auto
qed

section \<open>Properties of the front end\<close>

lemmas wine_defs = wine_env_def wine_args_def wine_fs_def quiet_processor_def empty_fs_def
  load_config_def read_default_config_def config_read_def get_script_dir_def
  resolve_paths_def config_default_or_def absolute_def os_path_exists_def os_path_isfile_def
  startswith_def backslash_def check_input_path_def process_def banner_def load_overrides_def
  main_def

lemmas wine_setup = wine_env_def wine_args_def wine_fs_def empty_fs_def
  load_config_def read_default_config_def config_read_def get_script_dir_def
  resolve_paths_def config_default_or_def absolute_def os_path_exists_def
  startswith_def

lemma str_replace_char:
  "str_replace [c] [d] s = map (\<lambda>x. if x = c then d else x) s"
  by (induction s) auto

lemma str_replace_count_prefix:
  "old \<noteq> [] \<Longrightarrow> str_replace_count old new (Suc 0) (old @ rest) = new @ rest"
  by (cases old) simp_all

lemma startswith_split: "startswith s p \<Longrightarrow> s = p @ drop (length p) s"
  by (auto simp: startswith_def prefix_def)

lemma isfile_exists: "os_path_isfile fs p \<Longrightarrow> os_path_exists fs p"
  by (auto simp: os_path_isfile_def os_path_exists_def split: option.splits)

lemma translate_wine:
  assumes "startswith input_dir ''Z:''"
  shows "str_replace [backslash] ''/'' (str_replace_count ''Z:'' [] (Suc 0) input_dir)
         = map (\<lambda>c. if c = backslash then CHR ''/'' else c) (drop 2 input_dir)"
proof -
  define rest where "rest = drop (length ''Z:'') input_dir"
  have rest2: "rest = drop 2 input_dir"
    by (simp add: rest_def numeral_2_eq_2)
  have r: "input_dir = ''Z:'' @ rest"
    unfolding rest_def by (rule startswith_split [OF assms])
  have "str_replace_count ''Z:'' [] (Suc 0) input_dir = rest"
    by (subst r) (simp add: str_replace_count_prefix [of "''Z:''" "[]" rest, simplified])
  then show ?thesis
    by (simp only: str_replace_char rest2)
qed

lemma check_input_path_exit:
  assumes "\<not> os_path_exists fs input_dir"
      and "\<not> startswith input_dir ''Z:'' \<or>
           \<not> os_path_exists fs (map (\<lambda>c. if c = backslash then CHR ''/'' else c) (drop 2 input_dir))"
  shows "check_input_path fs input_dir = ([InputPathMissing input_dir, CreateConfigHint], None)"
  using assms isfile_exists [of fs input_dir]
  by (auto simp: check_input_path_def translate_wine Let_def)

lemma check_input_path_wine:
  assumes "\<not> os_path_exists fs input_dir"
      and "startswith input_dir ''Z:''"
      and "os_path_exists fs (map (\<lambda>c. if c = backslash then CHR ''/'' else c) (drop 2 input_dir))"
  shows "check_input_path fs input_dir =
           ([], Some (map (\<lambda>c. if c = backslash then CHR ''/'' else c) (drop 2 input_dir)))"
  using assms isfile_exists [of fs input_dir]
  by (auto simp: check_input_path_def translate_wine Let_def)

lemma main_cases [case_names create config_error key_error no_input run]:
  obtains "arg_create_config a"
  | x where "\<not> arg_create_config a" "load_config e fs (arg_config a) = Inl x"
  | config x where "\<not> arg_create_config a" "load_config e fs (arg_config a) = Inr config"
      "resolve_paths e a config = Inl x"
  | config input_dir output_dir custom_dir prints where
      "\<not> arg_create_config a" "load_config e fs (arg_config a) = Inr config"
      "resolve_paths e a config = Inr (input_dir, output_dir, custom_dir)"
      "check_input_path fs input_dir = (prints, None)"
  | config input_dir output_dir custom_dir prints input_dir' where
      "\<not> arg_create_config a" "load_config e fs (arg_config a) = Inr config"
      "resolve_paths e a config = Inr (input_dir, output_dir, custom_dir)"
      "check_input_path fs input_dir = (prints, Some input_dir')"
proof (cases "arg_create_config a")
  case True
  then show ?thesis using that(1) by blast
next
  case nc: False
  show ?thesis
  proof (cases "load_config e fs (arg_config a)")
    case (Inl x)
    then show ?thesis using nc that(2) by blast
  next
    case lc: (Inr config)
    show ?thesis
    proof (cases "resolve_paths e a config")
      case (Inl x)
      then show ?thesis using nc lc that(3) by blast
    next
      case (Inr paths)
      then obtain input_dir output_dir custom_dir
        where rp: "resolve_paths e a config = Inr (input_dir, output_dir, custom_dir)"
        by (cases paths) auto
      obtain prints res where c: "check_input_path fs input_dir = (prints, res)"
        by (cases "check_input_path fs input_dir") auto
      show ?thesis
      proof (cases res)
        case None
        then show ?thesis using nc lc rp c that(4) by blast
      next
        case (Some input_dir')
        then show ?thesis using nc lc rp c that(5) by blast
      qed
    qed
  qed
qed

lemma main_run:
  assumes "\<not> arg_create_config a"
      and "load_config e fs (arg_config a) = Inr config"
      and "resolve_paths e a config = Inr (input_dir, output_dir, custom_dir)"
      and "check_input_path fs input_dir = (prints, Some input_dir')"
  shows "main e rp a fs =
           (process rp fs input_dir' output_dir custom_dir)
             \<lparr>trace := Call_load_config # map Print prints
                        @ banner input_dir' output_dir custom_dir
                        @ trace (process rp fs input_dir' output_dir custom_dir)\<rparr>"
  using assms by (simp add: main_def Let_def)

lemma main_no_input:
  assumes "\<not> arg_create_config a"
      and "load_config e fs (arg_config a) = Inr config"
      and "resolve_paths e a config = Inr (input_dir, output_dir, custom_dir)"
      and "check_input_path fs input_dir = (prints, None)"
  shows "main e rp a fs =
           \<lparr>outcome = Exited 1, trace = Call_load_config # map Print prints,
            files = fs, table = None\<rparr>"
  using assms by (simp add: main_def)

lemma prints_are_not_calls: "ev \<in> set (map Print prints) \<Longrightarrow> \<not> is_load ev \<and> \<not> is_process ev"
  by (auto simp: is_load_def is_process_def)

lemma banner_has_no_calls:
  "ev \<in> set (banner input_dir output_dir custom_dir) \<Longrightarrow> \<not> is_load ev \<and> \<not> is_process ev"
  unfolding banner_def by (rule prints_are_not_calls)

lemma process_cases [case_names load_failed process_failed finished]:
  obtains msg where
      "load_custom_pinyin_from_directory rp custom_dir fs = Inl (Exception msg)"
      "process rp fs input_dir output_dir custom_dir =
         \<lparr>outcome = Exited 1,
          trace = [Call_load_custom_pinyin_from_directory custom_dir, Print (ErrorText msg)],
          files = fs, table = None\<rparr>"
  | tbl msg fs' where
      "load_custom_pinyin_from_directory rp custom_dir fs = Inr tbl"
      "process_files rp tbl input_dir output_dir fs = (Some (Exception msg), fs')"
      "process rp fs input_dir output_dir custom_dir =
         \<lparr>outcome = Exited 1,
          trace = [Call_load_custom_pinyin_from_directory custom_dir,
                   Call_process_files input_dir output_dir, Print (ErrorText msg)],
          files = fs', table = Some tbl\<rparr>"
  | tbl fs' where
      "load_custom_pinyin_from_directory rp custom_dir fs = Inr tbl"
      "process_files rp tbl input_dir output_dir fs = (None, fs')"
      "process rp fs input_dir output_dir custom_dir =
         \<lparr>outcome = Returned,
          trace = [Call_load_custom_pinyin_from_directory custom_dir,
                   Call_process_files input_dir output_dir, Print AllDone],
          files = fs', table = Some tbl\<rparr>"
proof (cases "load_custom_pinyin_from_directory rp custom_dir fs")
  case (Inl x)
  then show ?thesis using that(1) by (cases x) (simp add: process_def)
next
  case (Inr tbl)
  obtain res fs' where p: "process_files rp tbl input_dir output_dir fs = (res, fs')"
    by (cases "process_files rp tbl input_dir output_dir fs") auto
  show ?thesis
  proof (cases res)
    case None
    then show ?thesis using Inr p that(3) by (simp add: process_def)
  next
    case (Some x)
    then show ?thesis using Inr p that(2) by (cases x) (simp add: process_def)
  qed
qed

lemma front_has_no_calls:
  "ev \<in> set (Call_load_config # map Print prints @ banner input_dir output_dir custom_dir)
   \<Longrightarrow> \<not> is_load ev \<and> \<not> is_process ev"
  using prints_are_not_calls [of ev prints] banner_has_no_calls [of ev input_dir output_dir custom_dir]
  by (auto simp: is_load_def is_process_def)

lemma wine_run:
  "main wine_env quiet_processor wine_args wine_fs =
     \<lparr>outcome = Returned,
      trace = [Call_load_config,
               Print Banner, Print (ShowInput ''/data''), Print (ShowOutput ''/out''),
               Print (ShowCustomDir ''/pinyin''), Print Rule,
               Call_load_custom_pinyin_from_directory ''/pinyin'',
               Call_process_files ''/data'' ''/out'',
               Print AllDone],
      files = wine_fs, table = Some Map.empty\<rparr>"
  by (simp add: wine_defs)

text \<open>
  C2 (as amended). When the resolved input path does not exist, and it either does not begin
  with \<open>Z:\<close> or its translation (the prefix dropped, every backslash turned into a slash)
  does not exist either, the program prints the error and the hint and exits with status 1:
  the run holds no call of \<open>load_custom_pinyin_from_directory\<close> or \<open>process_files\<close>.
  Without the second condition the statement fails: a missing \<open>Z:\<close> path whose
  translation exists is processed, as the example run after the theorem shows.
\<close>

theorem missing_input_path_exits:
  assumes "\<not> arg_create_config a"
      and "load_config e fs (arg_config a) = Inr config"
      and "resolve_paths e a config = Inr (input_dir, output_dir, custom_dir)"
      and "\<not> os_path_exists fs input_dir"
      and "\<not> startswith input_dir ''Z:'' \<or>
           \<not> os_path_exists fs (map (\<lambda>c. if c = backslash then CHR ''/'' else c) (drop 2 input_dir))"
  shows "main e rp a fs =
           \<lparr>outcome = Exited 1,
            trace = [Call_load_config, Print (InputPathMissing input_dir), Print CreateConfigHint],
            files = fs, table = None\<rparr>"
  using assms(1-3) check_input_path_exit [OF assms(4,5)]
  by (simp add: main_def)

theorem missing_input_path_exits_witness:
  "main wine_env quiet_processor wine_args empty_fs =
     \<lparr>outcome = Exited 1,
      trace = [Call_load_config, Print (InputPathMissing (''Z:'' @ [backslash] @ ''data'')),
               Print CreateConfigHint],
      files = empty_fs, table = None\<rparr>"
  using missing_input_path_exits [of wine_args wine_env empty_fs
          "\<lparr>cfg_defaults = default_settings, cfg_sections = []\<rparr>"
          "''Z:'' @ [backslash] @ ''data''" "''/out''" "''/pinyin''" quiet_processor]
  by (simp add: wine_setup)

theorem missing_input_path_counterexample:
  "\<not> arg_create_config wine_args
   \<and> load_config wine_env wine_fs (arg_config wine_args)
       = Inr \<lparr>cfg_defaults = default_settings, cfg_sections = []\<rparr>
   \<and> resolve_paths wine_env wine_args \<lparr>cfg_defaults = default_settings, cfg_sections = []\<rparr>
       = Inr (''Z:'' @ [backslash] @ ''data'', ''/out'', ''/pinyin'')
   \<and> \<not> os_path_exists wine_fs (''Z:'' @ [backslash] @ ''data'')
   \<and> outcome (main wine_env quiet_processor wine_args wine_fs) = Returned
   \<and> trace (main wine_env quiet_processor wine_args wine_fs)
       = [Call_load_config,
          Print Banner, Print (ShowInput ''/data''), Print (ShowOutput ''/out''),
          Print (ShowCustomDir ''/pinyin''), Print Rule,
          Call_load_custom_pinyin_from_directory ''/pinyin'',
          Call_process_files ''/data'' ''/out'',
          Print AllDone]"
  by (simp add: wine_defs)

text \<open>
  C3. When the resolved input path does not exist and begins with \<open>Z:\<close>, the program drops
  that prefix and turns every backslash into a slash. If the translated path exists the
  run goes on with it: the banner, the loading of the overrides and, when that returns,
  \<open>process_files\<close> on the translated path. If it does not exist either, the program
  prints the error and exits with status 1.
\<close>

theorem wine_path_translated:
  assumes "\<not> arg_create_config a"
      and "load_config e fs (arg_config a) = Inr config"
      and "resolve_paths e a config = Inr (input_dir, output_dir, custom_dir)"
      and "\<not> os_path_exists fs input_dir"
      and "startswith input_dir ''Z:''"
  shows "let linux_path = map (\<lambda>c. if c = backslash then CHR ''/'' else c) (drop 2 input_dir);
             r = process rp fs linux_path output_dir custom_dir
         in (os_path_exists fs linux_path \<longrightarrow>
               main e rp a fs =
                 r\<lparr>trace := Call_load_config # banner linux_path output_dir custom_dir @ trace r\<rparr>
               \<and> Call_load_custom_pinyin_from_directory custom_dir \<in> set (trace (main e rp a fs))
               \<and> (\<forall>tbl. load_custom_pinyin_from_directory rp custom_dir fs = Inr tbl \<longrightarrow>
                     Call_process_files linux_path output_dir \<in> set (trace (main e rp a fs))))
          \<and> (\<not> os_path_exists fs linux_path \<longrightarrow>
               main e rp a fs =
                 \<lparr>outcome = Exited 1,
                  trace = [Call_load_config, Print (InputPathMissing input_dir),
                           Print CreateConfigHint],
                  files = fs, table = None\<rparr>)"
proof -
  define linux_path where
    "linux_path = map (\<lambda>c. if c = backslash then CHR ''/'' else c) (drop 2 input_dir)"
  define r where "r = process rp fs linux_path output_dir custom_dir"
  have found: "main e rp a fs =
      r\<lparr>trace := Call_load_config # banner linux_path output_dir custom_dir @ trace r\<rparr>
    \<and> Call_load_custom_pinyin_from_directory custom_dir \<in> set (trace (main e rp a fs))
    \<and> (\<forall>tbl. load_custom_pinyin_from_directory rp custom_dir fs = Inr tbl \<longrightarrow>
          Call_process_files linux_path output_dir \<in> set (trace (main e rp a fs)))"
    if ex: "os_path_exists fs linux_path"
  proof -
    have c: "check_input_path fs input_dir = ([], Some linux_path)"
      unfolding linux_path_def
      by (rule check_input_path_wine [OF assms(4,5) ex [unfolded linux_path_def]])
    have m: "main e rp a fs =
        r\<lparr>trace := Call_load_config # banner linux_path output_dir custom_dir @ trace r\<rparr>"
      using main_run [OF assms(1-3) c, of rp] by (simp add: r_def)
    show ?thesis
    proof (cases rule: process_cases [where rp = rp and custom_dir = custom_dir and fs = fs
        and input_dir = linux_path and output_dir = output_dir])
      case (load_failed msg)
      then show ?thesis using m by (simp add: r_def)
    next
      case (process_failed tbl msg fs')
      then show ?thesis using m by (simp add: r_def)
    next
      case (finished tbl fs')
      then show ?thesis using m by (simp add: r_def)
    qed
  qed
  have missing: "main e rp a fs =
      \<lparr>outcome = Exited 1,
       trace = [Call_load_config, Print (InputPathMissing input_dir), Print CreateConfigHint],
       files = fs, table = None\<rparr>"
    if nex: "\<not> os_path_exists fs linux_path"
  proof -
    have "check_input_path fs input_dir = ([InputPathMissing input_dir, CreateConfigHint], None)"
      using check_input_path_exit [OF assms(4)] nex by (simp add: linux_path_def)
    from main_no_input [OF assms(1-3) this] show ?thesis by simp
  qed
  show ?thesis
    unfolding Let_def linux_path_def [symmetric] r_def [symmetric]
    using found missing by blast
qed

theorem wine_path_translated_witness:
  "Call_process_files ''/data'' ''/out''
     \<in> set (trace (main wine_env quiet_processor wine_args wine_fs))
   \<and> outcome (main wine_env quiet_processor wine_args empty_fs) = Exited 1"
proof -
  let ?config = "\<lparr>cfg_defaults = default_settings, cfg_sections = []\<rparr>"
  let ?input = "''Z:'' @ [backslash] @ ''data''"
  have p: "map (\<lambda>c. if c = backslash then CHR ''/'' else c) (drop 2 ?input) = ''/data''"
    by (simp add: backslash_def)
  have h1: "\<not> arg_create_config wine_args"
    by (simp add: wine_args_def)
  have h2: "load_config wine_env fs (arg_config wine_args) = Inr ?config"
    if "fs = wine_fs \<or> fs = empty_fs" for fs
    using that by (auto simp: wine_setup)
  have h3: "resolve_paths wine_env wine_args ?config = Inr (?input, ''/out'', ''/pinyin'')"
    by (simp add: wine_setup)
  have h4: "\<not> os_path_exists fs ?input" if "fs = wine_fs \<or> fs = empty_fs" for fs
    using that by (auto simp: wine_setup)
  have h5: "startswith ?input ''Z:''"
    by (simp add: startswith_def)
  have found: "os_path_exists wine_fs ''/data''"
    by (simp add: wine_fs_def os_path_exists_def)
  have loaded: "load_custom_pinyin_from_directory quiet_processor ''/pinyin'' wine_fs = Inr Map.empty"
    by (simp add: quiet_processor_def load_overrides_def wine_fs_def os_path_exists_def)
  have missing: "\<not> os_path_exists empty_fs ''/data''"
    by (simp add: empty_fs_def os_path_exists_def)
  have "Call_process_files ''/data'' ''/out''
          \<in> set (trace (main wine_env quiet_processor wine_args wine_fs))"
    using wine_path_translated [OF h1 h2 h3 h4 h5, of wine_fs quiet_processor, unfolded Let_def p]
      found loaded by blast
  moreover have "outcome (main wine_env quiet_processor wine_args empty_fs) = Exited 1"
    using wine_path_translated [OF h1 h2 h3 h4 h5, of empty_fs quiet_processor, unfolded Let_def p]
      missing by simp
  ultimately show ?thesis by simp
qed

text \<open>
  C8. In a run that calls \<open>process_files\<close>, the Override Table is built by exactly one
  call of \<open>load_custom_pinyin_from_directory\<close>, which returns before the one call of
  \<open>process_files\<close> is made; the table the run ends with is the table that call built,
  and it is the table \<open>process_files\<close> was given.
\<close>

theorem table_built_once_before_processing:
  assumes "Call_process_files i out \<in> set (trace (main e rp a fs))"
  shows "\<exists>pre post custom_dir tbl.
           trace (main e rp a fs)
             = pre @ [Call_load_custom_pinyin_from_directory custom_dir, Call_process_files i out] @ post
           \<and> (\<forall>ev \<in> set (pre @ post). \<not> is_load ev \<and> \<not> is_process ev)
           \<and> load_custom_pinyin_from_directory rp custom_dir fs = Inr tbl
           \<and> table (main e rp a fs) = Some tbl
           \<and> files (main e rp a fs) = snd (process_files rp tbl i out fs)"
proof (cases rule: main_cases [where a = a and e = e and fs = fs])
  case create
  then show ?thesis using assms
    by (simp add: main_def create_default_config_def Let_def split: option.splits)
next
  case (config_error x)
  then show ?thesis using assms by (simp add: main_def)
next
  case (key_error config x)
  then show ?thesis using assms by (simp add: main_def)
next
  case (no_input config input_dir output_dir custom_dir prints)
  then show ?thesis using assms by (auto simp: main_def)
next
  case (run config input_dir output_dir custom_dir prints input_dir')
  let ?pre = "Call_load_config # map Print prints @ banner input_dir' output_dir custom_dir"
  let ?r = "process rp fs input_dir' output_dir custom_dir"
  have m: "main e rp a fs = ?r\<lparr>trace := ?pre @ trace ?r\<rparr>"
    using main_run [OF run, of rp] by simp
  have pre: "\<forall>ev \<in> set ?pre. \<not> is_load ev \<and> \<not> is_process ev"
    using front_has_no_calls by blast
  have "is_process (Call_process_files i out)"
    by (simp add: is_process_def)
  with pre have notin: "Call_process_files i out \<notin> set ?pre"
    by blast
  show ?thesis
  proof (cases rule: process_cases [where rp = rp and custom_dir = custom_dir and fs = fs
      and input_dir = input_dir' and output_dir = output_dir])
    case (load_failed msg)
    then show ?thesis using assms m notin by auto
  next
    case (process_failed tbl msg fs')
    then have eq: "i = input_dir'" "out = output_dir"
      using assms m notin by auto
    have "trace (main e rp a fs)
            = ?pre @ [Call_load_custom_pinyin_from_directory custom_dir, Call_process_files i out]
                @ [Print (ErrorText msg)]"
      using m process_failed eq by simp
    moreover have "\<forall>ev \<in> set (?pre @ [Print (ErrorText msg)]). \<not> is_load ev \<and> \<not> is_process ev"
      using pre by (auto simp: is_load_def is_process_def)
    moreover have "table (main e rp a fs) = Some tbl"
      "files (main e rp a fs) = snd (process_files rp tbl i out fs)"
      using m process_failed eq by simp_all
    ultimately show ?thesis using process_failed(1) by blast
  next
    case (finished tbl fs')
    then have eq: "i = input_dir'" "out = output_dir"
      using assms m notin by auto
    have "trace (main e rp a fs)
            = ?pre @ [Call_load_custom_pinyin_from_directory custom_dir, Call_process_files i out]
                @ [Print AllDone]"
      using m finished eq by simp
    moreover have "\<forall>ev \<in> set (?pre @ [Print AllDone]). \<not> is_load ev \<and> \<not> is_process ev"
      using pre by (auto simp: is_load_def is_process_def)
    moreover have "table (main e rp a fs) = Some tbl"
      "files (main e rp a fs) = snd (process_files rp tbl i out fs)"
      using m finished eq by simp_all
    ultimately show ?thesis using finished(1) by blast
  qed
qed

theorem table_built_once_before_processing_witness:
  "Call_process_files ''/data'' ''/out''
     \<in> set (trace (main wine_env quiet_processor wine_args wine_fs))
   \<and> (\<exists>pre post custom_dir tbl.
         trace (main wine_env quiet_processor wine_args wine_fs)
           = pre @ [Call_load_custom_pinyin_from_directory custom_dir,
                    Call_process_files ''/data'' ''/out''] @ post
         \<and> (\<forall>ev \<in> set (pre @ post). \<not> is_load ev \<and> \<not> is_process ev)
         \<and> load_custom_pinyin_from_directory quiet_processor custom_dir wine_fs = Inr tbl
         \<and> table (main wine_env quiet_processor wine_args wine_fs) = Some tbl
         \<and> files (main wine_env quiet_processor wine_args wine_fs)
             = snd (process_files quiet_processor tbl ''/data'' ''/out'' wine_fs))"
proof -
  have h: "Call_process_files ''/data'' ''/out''
             \<in> set (trace (main wine_env quiet_processor wine_args wine_fs))"
    by (simp add: wine_run)
  from table_built_once_before_processing [OF h] h show ?thesis by blast
qed

text \<open>
  C9. A run that resolves its paths and whose override directory does not exist exits with
  status 1, without a call of \<open>process_files\<close> and without a table (the loader being the
  Override Table Builder of the spec); and whenever the loading of the overrides raises
  an exception, the run prints it and exits with status 1 before \<open>process_files\<close> is
  called.
\<close>

theorem override_load_failure_aborts:
  assumes "\<not> arg_create_config a"
      and "load_config e fs (arg_config a) = Inr config"
      and "resolve_paths e a config = Inr (input_dir, output_dir, custom_dir)"
  shows "(load_custom_pinyin_from_directory rp = load_overrides build
          \<and> \<not> os_path_exists fs custom_dir \<longrightarrow>
            outcome (main e rp a fs) = Exited 1
            \<and> (\<forall>ev \<in> set (trace (main e rp a fs)). \<not> is_process ev)
            \<and> table (main e rp a fs) = None)
       \<and> (\<forall>prints input_dir' msg.
            check_input_path fs input_dir = (prints, Some input_dir')
            \<and> load_custom_pinyin_from_directory rp custom_dir fs = Inl (Exception msg) \<longrightarrow>
              outcome (main e rp a fs) = Exited 1
              \<and> (\<forall>ev \<in> set (trace (main e rp a fs)). \<not> is_process ev)
              \<and> table (main e rp a fs) = None
              \<and> files (main e rp a fs) = fs
              \<and> (\<exists>pre. trace (main e rp a fs)
                    = pre @ [Call_load_custom_pinyin_from_directory custom_dir,
                             Print (ErrorText msg)]))"
proof -
  have raised: "outcome (main e rp a fs) = Exited 1
      \<and> (\<forall>ev \<in> set (trace (main e rp a fs)). \<not> is_process ev)
      \<and> table (main e rp a fs) = None
      \<and> files (main e rp a fs) = fs
      \<and> (\<exists>pre. trace (main e rp a fs)
            = pre @ [Call_load_custom_pinyin_from_directory custom_dir, Print (ErrorText msg)])"
    if c: "check_input_path fs input_dir = (prints, Some input_dir')"
      and l: "load_custom_pinyin_from_directory rp custom_dir fs = Inl (Exception msg)"
    for prints input_dir' msg
  proof -
    let ?pre = "Call_load_config # map Print prints @ banner input_dir' output_dir custom_dir"
    have p: "process rp fs input_dir' output_dir custom_dir =
        \<lparr>outcome = Exited 1,
         trace = [Call_load_custom_pinyin_from_directory custom_dir, Print (ErrorText msg)],
         files = fs, table = None\<rparr>"
      using l by (simp add: process_def)
    have m: "main e rp a fs =
        \<lparr>outcome = Exited 1,
         trace = ?pre @ [Call_load_custom_pinyin_from_directory custom_dir, Print (ErrorText msg)],
         files = fs, table = None\<rparr>"
      using main_run [OF assms c, of rp] p by simp
    have "\<forall>ev \<in> set ?pre. \<not> is_process ev"
      using front_has_no_calls by blast
    then have "\<forall>ev \<in> set (trace (main e rp a fs)). \<not> is_process ev"
      using m by (auto simp: is_process_def)
    then show ?thesis using m by simp
  qed
  have absent: "outcome (main e rp a fs) = Exited 1
      \<and> (\<forall>ev \<in> set (trace (main e rp a fs)). \<not> is_process ev)
      \<and> table (main e rp a fs) = None"
    if b: "load_custom_pinyin_from_directory rp = load_overrides build"
      and n: "\<not> os_path_exists fs custom_dir"
  proof -
    obtain prints res where c: "check_input_path fs input_dir = (prints, res)"
      by (cases "check_input_path fs input_dir") auto
    show ?thesis
    proof (cases res)
      case None
      have "\<forall>ev \<in> set (Call_load_config # map Print prints). \<not> is_process ev"
        by (auto simp: is_process_def)
      then show ?thesis
        using main_no_input [OF assms c [unfolded None], of rp] by simp
    next
      case (Some input_dir')
      have "load_custom_pinyin_from_directory rp custom_dir fs
              = Inl (Exception ''ConfigurationError'')"
        using b n by (simp add: load_overrides_def)
      from raised [OF c [unfolded Some] this] show ?thesis by blast
    qed
  qed
  show ?thesis using raised absent by blast
qed

theorem override_load_failure_aborts_witness:
  "\<not> os_path_exists no_pinyin_fs ''/pinyin''
   \<and> main wine_env quiet_processor wine_args no_pinyin_fs =
       \<lparr>outcome = Exited 1,
        trace = [Call_load_config,
                 Print Banner, Print (ShowInput ''/data''), Print (ShowOutput ''/out''),
                 Print (ShowCustomDir ''/pinyin''), Print Rule,
                 Call_load_custom_pinyin_from_directory ''/pinyin'',
                 Print (ErrorText ''ConfigurationError'')],
        files = no_pinyin_fs, table = None\<rparr>"
proof -
  let ?config = "\<lparr>cfg_defaults = default_settings, cfg_sections = []\<rparr>"
  let ?input = "''Z:'' @ [backslash] @ ''data''"
  let ?r = "main wine_env quiet_processor wine_args no_pinyin_fs"
  have h1: "\<not> arg_create_config wine_args"
    by (simp add: wine_args_def)
  have h2: "load_config wine_env no_pinyin_fs (arg_config wine_args) = Inr ?config"
    by (simp add: wine_setup no_pinyin_fs_def)
  have h3: "resolve_paths wine_env wine_args ?config = Inr (?input, ''/out'', ''/pinyin'')"
    by (simp add: wine_setup)
  have h4: "load_custom_pinyin_from_directory quiet_processor
              = load_overrides (\<lambda>directory fs. Inr Map.empty)"
    by (simp add: quiet_processor_def)
  have h5: "\<not> os_path_exists no_pinyin_fs ''/pinyin''"
    by (simp add: no_pinyin_fs_def os_path_exists_def)
  have h6: "check_input_path no_pinyin_fs ?input = ([], Some ''/data'')"
    by (simp add: check_input_path_def no_pinyin_fs_def os_path_exists_def os_path_isfile_def
        startswith_def backslash_def)
  have h7: "load_custom_pinyin_from_directory quiet_processor ''/pinyin'' no_pinyin_fs
              = Inl (Exception ''ConfigurationError'')"
    by (simp add: quiet_processor_def load_overrides_def no_pinyin_fs_def os_path_exists_def)
  note t = override_load_failure_aborts [OF h1 h2 h3, of quiet_processor "\<lambda>directory fs. Inr Map.empty"]
  from t h4 h5 have a: "outcome ?r = Exited 1" "table ?r = None"
    by blast+
  from t h6 h7 have b: "files ?r = no_pinyin_fs"
    by blast
  have c: "trace ?r = [Call_load_config,
                 Print Banner, Print (ShowInput ''/data''), Print (ShowOutput ''/out''),
                 Print (ShowCustomDir ''/pinyin''), Print Rule,
                 Call_load_custom_pinyin_from_directory ''/pinyin'',
                 Print (ErrorText ''ConfigurationError'')]"
    by (simp add: wine_defs no_pinyin_fs_def)
  show ?thesis using a b c h5 by (cases ?r) simp
qed

lemma create_default_config_text:
  "config_write \<lparr>cfg_defaults = [], cfg_sections = [(''Settings'', default_settings_file)]\<rparr>
   = default_config_text"
  by (simp add: config_write_def write_section_def default_settings_file_def
      default_config_text_def backslash_def)

lemma load_config_without_file:
  assumes "\<not> os_path_exists fs (path_join e (get_script_dir e) ''config.ini'')"
      and "\<forall>path. config_file = Some path \<longrightarrow> path = [] \<or> \<not> os_path_exists fs path"
  shows "load_config e fs config_file = Inr \<lparr>cfg_defaults = default_settings, cfg_sections = []\<rparr>"
  using assms
  by (cases config_file) (auto simp: load_config_def read_default_config_def Let_def)

lemma create_default_config_writes:
  assumes "open_for_writing e fs (path_join e (get_script_dir e) ''config.ini'') = None"
  shows "create_default_config e fs =
           Inr ((path_join e (get_script_dir e) ''config.ini'',
                 [ConfigCreated (path_join e (get_script_dir e) ''config.ini'')]),
                fs(path_join e (get_script_dir e) ''config.ini'' \<mapsto> RegularFile default_config_text))"
  using assms by (simp add: create_default_config_def Let_def create_default_config_text)

lemma create_default_config_raises:
  assumes "open_for_writing e fs (path_join e (get_script_dir e) ''config.ini'') = Some x"
  shows "create_default_config e fs = Inl x"
  using assms by (simp add: create_default_config_def Let_def)

lemma default_config_text_lines:
  "split_on (CHR 0x0A) default_config_text =
     [''[Settings]'', ''input_dir = ./input'', ''output_dir = ./output'',
      ''custom_dir = ./pinyin_data'', ''aux_sep_regex = [;'' @ [backslash] @ ''[]'', [], []]"
proof -
  let ?lines = "[''[Settings]'', ''input_dir = ./input'', ''output_dir = ./output'',
      ''custom_dir = ./pinyin_data'', ''aux_sep_regex = [;'' @ [backslash] @ ''[]'', [], []]"
  have "default_config_text = join (CHR 0x0A) ?lines"
    by (simp add: default_config_text_def)
  moreover have "\<forall>x \<in> set ?lines. CHR 0x0A \<notin> set x"
    by (simp add: backslash_def)
  ultimately show ?thesis
    using split_on_join [of ?lines "CHR 0x0A"] by simp
qed

text \<open>
  C7. The default separator pattern is the character class of \<open>;\<close> and \<open>[\<close>. When no
  configuration file is found, the parser that \<open>load_config\<close> returns gives
  \<open>aux_sep_regex\<close> the five characters \<open>[;\[]\<close>; the file that \<open>create_default_config\<close>
  writes sets \<open>aux_sep_regex\<close> to the same five characters under the section \<open>Settings\<close>;
  and these five characters are a bracket expression that matches exactly \<open>;\<close> and \<open>[\<close>.
\<close>

theorem default_separator_pattern:
  "(\<not> os_path_exists fs (path_join e (get_script_dir e) ''config.ini'')
    \<and> (\<forall>path. config_file = Some path \<longrightarrow> path = [] \<or> \<not> os_path_exists fs path)
    \<longrightarrow> (\<exists>config. load_config e fs config_file = Inr config
           \<and> config_default e config ''aux_sep_regex'' = Inr (''[;'' @ [backslash] @ ''[]'')))
   \<and> (open_for_writing e fs (path_join e (get_script_dir e) ''config.ini'') = None
    \<longrightarrow> (\<exists>r text.
           create_default_config e fs
             = Inr (r, fs(path_join e (get_script_dir e) ''config.ini'' \<mapsto> RegularFile text))
           \<and> hd (split_on (CHR 0x0A) text) = ''[Settings]''
           \<and> ''aux_sep_regex = [;'' @ [backslash] @ ''[]'' \<in> set (split_on (CHR 0x0A) text)))
   \<and> map_option set (char_class (''[;'' @ [backslash] @ ''[]'')) = Some {CHR '';'', CHR ''[''}"
proof -
  have "config_default e \<lparr>cfg_defaults = default_settings, cfg_sections = []\<rparr> ''aux_sep_regex''
          = Inr (''[;'' @ [backslash] @ ''[]'')"
    by (simp add: config_default_def default_settings_def backslash_def)
  then have a: "\<exists>config. load_config e fs config_file = Inr config
        \<and> config_default e config ''aux_sep_regex'' = Inr (''[;'' @ [backslash] @ ''[]'')"
    if "\<not> os_path_exists fs (path_join e (get_script_dir e) ''config.ini'')"
      and "\<forall>path. config_file = Some path \<longrightarrow> path = [] \<or> \<not> os_path_exists fs path"
    using load_config_without_file [OF that] by simp
  have b: "\<exists>r text.
        create_default_config e fs
          = Inr (r, fs(path_join e (get_script_dir e) ''config.ini'' \<mapsto> RegularFile text))
        \<and> hd (split_on (CHR 0x0A) text) = ''[Settings]''
        \<and> ''aux_sep_regex = [;'' @ [backslash] @ ''[]'' \<in> set (split_on (CHR 0x0A) text)"
    if "open_for_writing e fs (path_join e (get_script_dir e) ''config.ini'') = None"
  proof (intro exI conjI)
    show "create_default_config e fs =
        Inr ((path_join e (get_script_dir e) ''config.ini'',
              [ConfigCreated (path_join e (get_script_dir e) ''config.ini'')]),
             fs(path_join e (get_script_dir e) ''config.ini'' \<mapsto> RegularFile default_config_text))"
      by (rule create_default_config_writes [OF that])
    show "hd (split_on (CHR 0x0A) default_config_text) = ''[Settings]''"
      by (simp add: default_config_text_lines)
    show "''aux_sep_regex = [;'' @ [backslash] @ ''[]''
            \<in> set (split_on (CHR 0x0A) default_config_text)"
      by (simp add: default_config_text_lines)
  qed
  have c: "map_option set (char_class (''[;'' @ [backslash] @ ''[]'')) = Some {CHR '';'', CHR ''[''}"
    by (simp add: char_class_def backslash_def alphanumeric_def)
  show ?thesis
  proof (intro conjI impI)
    assume "\<not> os_path_exists fs (path_join e (get_script_dir e) ''config.ini'')
      \<and> (\<forall>path. config_file = Some path \<longrightarrow> path = [] \<or> \<not> os_path_exists fs path)"
    then show "\<exists>config. load_config e fs config_file = Inr config
        \<and> config_default e config ''aux_sep_regex'' = Inr (''[;'' @ [backslash] @ ''[]'')"
      by (rule conjE) (rule a)
  next
    assume "open_for_writing e fs (path_join e (get_script_dir e) ''config.ini'') = None"
    then show "\<exists>r text.
        create_default_config e fs
          = Inr (r, fs(path_join e (get_script_dir e) ''config.ini'' \<mapsto> RegularFile text))
        \<and> hd (split_on (CHR 0x0A) text) = ''[Settings]''
        \<and> ''aux_sep_regex = [;'' @ [backslash] @ ''[]'' \<in> set (split_on (CHR 0x0A) text)"
      by (rule b)
  next
    show "map_option set (char_class (''[;'' @ [backslash] @ ''[]'')) = Some {CHR '';'', CHR ''[''}"
      by (rule c)
  qed
qed

theorem default_separator_pattern_witness:
  "(\<exists>config. load_config wine_env wine_fs None = Inr config
      \<and> config_default wine_env config ''aux_sep_regex'' = Inr (''[;'' @ [backslash] @ ''[]''))
   \<and> (\<exists>r text.
        create_default_config wine_env wine_fs
          = Inr (r, wine_fs(''Z:'' @ [backslash] @ ''app'' @ [backslash] @ ''config.ini''
                       \<mapsto> RegularFile text))
        \<and> hd (split_on (CHR 0x0A) text) = ''[Settings]''
        \<and> ''aux_sep_regex = [;'' @ [backslash] @ ''[]'' \<in> set (split_on (CHR 0x0A) text))"
proof -
  have p: "path_join wine_env (get_script_dir wine_env) ''config.ini''
             = ''Z:'' @ [backslash] @ ''app'' @ [backslash] @ ''config.ini''"
    by (simp add: wine_env_def get_script_dir_def)
  have h1: "\<not> os_path_exists wine_fs (''Z:'' @ [backslash] @ ''app'' @ [backslash] @ ''config.ini'')"
    by (simp add: wine_fs_def os_path_exists_def)
  have h2: "\<forall>path. (None :: string option) = Some path \<longrightarrow> path = [] \<or> \<not> os_path_exists wine_fs path"
    by simp
  have h3: "open_for_writing wine_env wine_fs
              (''Z:'' @ [backslash] @ ''app'' @ [backslash] @ ''config.ini'') = None"
    by (simp add: open_for_writing_def wine_fs_def wine_env_def)
  note t = default_separator_pattern [of wine_fs wine_env None, unfolded p]
  have a: "\<exists>config. load_config wine_env wine_fs None = Inr config
      \<and> config_default wine_env config ''aux_sep_regex'' = Inr (''[;'' @ [backslash] @ ''[]'')"
    by (rule mp [OF t [THEN conjunct1] conjI [OF h1 h2]])
  have b: "\<exists>r text.
        create_default_config wine_env wine_fs
          = Inr (r, wine_fs(''Z:'' @ [backslash] @ ''app'' @ [backslash] @ ''config.ini''
                       \<mapsto> RegularFile text))
        \<and> hd (split_on (CHR 0x0A) text) = ''[Settings]''
        \<and> ''aux_sep_regex = [;'' @ [backslash] @ ''[]'' \<in> set (split_on (CHR 0x0A) text)"
    by (rule mp [OF t [THEN conjunct2, THEN conjunct1] h3])
  show ?thesis by (rule conjI [OF a b])
qed

text \<open>
  C10 (as amended). With \<open>--create-config\<close> the program does nothing but create the default
  configuration. When \<open>config.ini\<close> in the script directory can be opened for writing, the
  program writes the default settings into it, prints where it is, and returns. When it
  cannot be opened, the exception of \<open>open\<close> leaves \<open>main\<close> and nothing is written. In both
  cases the run has no call of \<open>load_config\<close>, of \<open>load_custom_pinyin_from_directory\<close> or
  of \<open>process_files\<close>, and no table is built. Without the condition on \<open>open\<close> the
  statement fails, as the example run after the theorem shows.
\<close>

theorem create_config_only:
  assumes "arg_create_config a"
  shows "let config_file = path_join e (get_script_dir e) ''config.ini'' in
           (open_for_writing e fs config_file = None \<longrightarrow>
              main e rp a fs =
                \<lparr>outcome = Returned,
                 trace = [Call_create_default_config, Print (ConfigCreated config_file)],
                 files = fs(config_file \<mapsto> RegularFile default_config_text),
                 table = None\<rparr>)
         \<and> (\<forall>x. open_for_writing e fs config_file = Some x \<longrightarrow>
              main e rp a fs =
                \<lparr>outcome = Uncaught x, trace = [Call_create_default_config],
                 files = fs, table = None\<rparr>)"
  using assms create_default_config_writes [of e fs] create_default_config_raises [of e fs]
  by (auto simp: main_def Let_def)

theorem create_config_only_witness:
  "main wine_env quiet_processor create_args wine_fs =
     \<lparr>outcome = Returned,
      trace = [Call_create_default_config,
               Print (ConfigCreated (''Z:'' @ [backslash] @ ''app'' @ [backslash] @ ''config.ini''))],
      files = wine_fs(''Z:'' @ [backslash] @ ''app'' @ [backslash] @ ''config.ini''
                \<mapsto> RegularFile default_config_text),
      table = None\<rparr>
   \<and> main wine_env quiet_processor create_args blocked_fs =
       \<lparr>outcome = Uncaught (Exception ''IsADirectoryError''),
        trace = [Call_create_default_config], files = blocked_fs, table = None\<rparr>"
proof -
  have p: "path_join wine_env (get_script_dir wine_env) ''config.ini''
             = ''Z:'' @ [backslash] @ ''app'' @ [backslash] @ ''config.ini''"
    by (simp add: wine_env_def get_script_dir_def)
  have h: "arg_create_config create_args"
    by (simp add: create_args_def)
  have ok: "open_for_writing wine_env wine_fs
              (''Z:'' @ [backslash] @ ''app'' @ [backslash] @ ''config.ini'') = None"
    by (simp add: open_for_writing_def wine_fs_def wine_env_def)
  have bad: "open_for_writing wine_env blocked_fs
               (''Z:'' @ [backslash] @ ''app'' @ [backslash] @ ''config.ini'')
             = Some (Exception ''IsADirectoryError'')"
    by (simp add: open_for_writing_def blocked_fs_def)
  from create_config_only [OF h, of wine_env wine_fs quiet_processor, unfolded Let_def p] ok
  have "main wine_env quiet_processor create_args wine_fs =
     \<lparr>outcome = Returned,
      trace = [Call_create_default_config,
               Print (ConfigCreated (''Z:'' @ [backslash] @ ''app'' @ [backslash] @ ''config.ini''))],
      files = wine_fs(''Z:'' @ [backslash] @ ''app'' @ [backslash] @ ''config.ini''
                \<mapsto> RegularFile default_config_text),
      table = None\<rparr>"
    by blast
  moreover
  from create_config_only [OF h, of wine_env blocked_fs quiet_processor, unfolded Let_def p] bad
  have "main wine_env quiet_processor create_args blocked_fs =
       \<lparr>outcome = Uncaught (Exception ''IsADirectoryError''),
        trace = [Call_create_default_config], files = blocked_fs, table = None\<rparr>"
    by blast
  ultimately show ?thesis by simp
qed

theorem create_config_counterexample:
  "arg_create_config create_args
   \<and> blocked_fs (path_join wine_env (get_script_dir wine_env) ''config.ini'') = Some Directory
   \<and> outcome (main wine_env quiet_processor create_args blocked_fs)
       = Uncaught (Exception ''IsADirectoryError'')
   \<and> files (main wine_env quiet_processor create_args blocked_fs) = blocked_fs"
proof -
  have h: "arg_create_config create_args"
    by (simp add: create_args_def)
  have p: "path_join wine_env (get_script_dir wine_env) ''config.ini''
             = ''Z:'' @ [backslash] @ ''app'' @ [backslash] @ ''config.ini''"
    by (simp add: wine_env_def get_script_dir_def)
  have d: "blocked_fs (''Z:'' @ [backslash] @ ''app'' @ [backslash] @ ''config.ini'') = Some Directory"
    by (simp add: blocked_fs_def)
  have "open_for_writing wine_env blocked_fs
          (path_join wine_env (get_script_dir wine_env) ''config.ini'')
        = Some (Exception ''IsADirectoryError'')"
    unfolding p using d by (simp add: open_for_writing_def)
  then have "create_default_config wine_env blocked_fs = Inl (Exception ''IsADirectoryError'')"
    by (rule create_default_config_raises)
  then have "main wine_env quiet_processor create_args blocked_fs =
      \<lparr>outcome = Uncaught (Exception ''IsADirectoryError''),
       trace = [Call_create_default_config], files = blocked_fs, table = None\<rparr>"
    using h by (simp add: main_def)
  then show ?thesis using h d unfolding p by simp
qed

section \<open>Properties of the correction engine\<close>

lemma body_trailing: "line_body raw @ line_trailing raw = raw"
proof -
  have "rev (line_body raw @ line_trailing raw) = rev raw"
    by (simp add: line_body_def line_trailing_def)
  then show ?thesis using rev_is_rev_conv by blast
qed

lemma serialize_parse: "parse_data_line raw = Some dl \<Longrightarrow> serialize dl = raw"
proof -
  assume p: "parse_data_line raw = Some dl"
  then obtain w f rest where cols: "split_on tab (line_body raw) = w # f # rest"
    and dl: "dl = \<lparr>word = w, pinyin_field = f, remaining_columns = rest,
                   trailing_whitespace = line_trailing raw\<rparr>"
    by (auto simp: parse_data_line_def split: list.splits)
  have "join tab (w # f # rest) = line_body raw"
    using join_split_on [of tab "line_body raw"] cols by simp
  then show ?thesis using dl body_trailing [of raw] by (simp add: serialize_def)
qed

lemma base_split_auxiliary:
  "base (split_auxiliary seps field) = takeWhile (\<lambda>c. c \<notin> set seps) field"
proof (cases "dropWhile (\<lambda>c. c \<notin> set seps) field")
  case Nil
  then have tw: "takeWhile (\<lambda>c. c \<notin> set seps) field = field"
    by (metis append_Nil2 takeWhile_dropWhile_id)
  show ?thesis unfolding split_auxiliary_def Nil by (simp add: tw)
next
  case (Cons c rest)
  show ?thesis unfolding split_auxiliary_def Cons by simp
qed

lemma split_auxiliary_reconstructs:
  "(case (separator_char (split_auxiliary seps field), auxiliary (split_auxiliary seps field)) of
      (Some c, Some aux) \<Rightarrow> p @ c # aux
    | _ \<Rightarrow> p)
   = p @ dropWhile (\<lambda>c. c \<notin> set seps) field"
proof (cases "dropWhile (\<lambda>c. c \<notin> set seps) field")
  case Nil
  show ?thesis unfolding split_auxiliary_def Nil by simp
next
  case (Cons c rest)
  show ?thesis unfolding split_auxiliary_def Cons by simp
qed

lemma decide_absent:
  "tbl (word dl) = None \<Longrightarrow> decide tbl seps dl = \<lparr>changed = False, new_pinyin_field = pinyin_field dl\<rparr>"
  by (simp add: decide_def)

lemma decide_accepted:
  assumes "tbl (word dl) = Some (first, others)"
      and "takeWhile (\<lambda>c. c \<notin> set seps) (pinyin_field dl) \<in> set (first # others)"
  shows "decide tbl seps dl = \<lparr>changed = False, new_pinyin_field = pinyin_field dl\<rparr>"
  using assms by (simp add: decide_def Let_def base_split_auxiliary)

lemma decide_changed:
  assumes "tbl (word dl) = Some (first, others)"
      and "takeWhile (\<lambda>c. c \<notin> set seps) (pinyin_field dl) \<notin> set (first # others)"
  shows "decide tbl seps dl =
           \<lparr>changed = True,
            new_pinyin_field = first @ dropWhile (\<lambda>c. c \<notin> set seps) (pinyin_field dl)\<rparr>"
  using assms split_auxiliary_reconstructs [where seps = seps and field = "pinyin_field dl" and p = first]
  by (simp add: decide_def Let_def base_split_auxiliary)

lemma join_not_empty: "join d (x # y # ys) \<noteq> []"
  by simp

lemma last_join:
  "last (join d (x # y # ys)) = (if last (y # ys) = [] then d else last (last (y # ys)))"
proof (induction ys arbitrary: x y)
  case Nil
  then show ?case by simp
next
  case (Cons z zs)
  have "last (join d (x # y # z # zs)) = last (join d (y # z # zs))"
    by simp
  then show ?case using Cons [of y z] by simp
qed

lemma line_body_append:
  assumes "b \<noteq> []" and "\<not> is_space (last b)" and "\<forall>c \<in> set trail. is_space c"
  shows "line_body (b @ trail) = b" and "line_trailing (b @ trail) = trail"
proof -
  have h: "\<not> is_space (hd (rev b))" "rev b \<noteq> []"
    using assms(1,2) by (simp_all add: hd_rev)
  then have d: "dropWhile is_space (rev b) = rev b" and t: "takeWhile is_space (rev b) = []"
    by (cases "rev b"; simp)+
  have a: "\<And>c. c \<in> set (rev trail) \<Longrightarrow> is_space c"
    using assms(3) by simp
  show "line_body (b @ trail) = b"
    using dropWhile_append2 [of "rev trail" is_space "rev b"] a d by (simp add: line_body_def)
  show "line_trailing (b @ trail) = trail"
    using takeWhile_append2 [of "rev trail" is_space "rev b"] a t by (simp add: line_trailing_def)
qed

lemma parse_built:
  assumes "\<forall>x \<in> set (w # f # rest). tab \<notin> set x"
      and "\<forall>c \<in> set trail. is_space c"
      and "\<not> is_space (last (join tab (w # f # rest)))"
  shows "parse_data_line (join tab (w # f # rest) @ trail) =
           Some \<lparr>word = w, pinyin_field = f, remaining_columns = rest,
                 trailing_whitespace = trail\<rparr>"
proof -
  have ne: "join tab (w # f # rest) \<noteq> []" by simp
  have sp: "split_on tab (join tab (w # f # rest)) = w # f # rest"
    using split_on_join [of "w # f # rest" tab] assms(1) by blast
  show ?thesis
    unfolding parse_data_line_def line_body_append [OF ne assms(3,2)] sp by simp
qed

lemma parse_facts:
  assumes "parse_data_line raw = Some dl"
  shows "\<forall>x \<in> set (word dl # pinyin_field dl # remaining_columns dl). tab \<notin> set x"
    and "\<forall>c \<in> set (trailing_whitespace dl). is_space c"
    and "\<not> is_space (last (join tab (word dl # pinyin_field dl # remaining_columns dl)))"
proof -
  from assms obtain w f rest where cols: "split_on tab (line_body raw) = w # f # rest"
    and dl: "dl = \<lparr>word = w, pinyin_field = f, remaining_columns = rest,
                   trailing_whitespace = line_trailing raw\<rparr>"
    by (auto simp: parse_data_line_def split: list.splits)
  show "\<forall>x \<in> set (word dl # pinyin_field dl # remaining_columns dl). tab \<notin> set x"
    using split_on_no_delimiter [of _ tab "line_body raw"] cols dl by auto
  show "\<forall>c \<in> set (trailing_whitespace dl). is_space c"
    using dl set_takeWhileD [of _ is_space "rev raw"] by (auto simp: line_trailing_def)
  have b: "join tab (w # f # rest) = line_body raw"
    using join_split_on [of tab "line_body raw"] cols by simp
  then have "line_body raw \<noteq> []"
    using join_not_empty [of tab w f rest] by simp
  then have ne: "dropWhile is_space (rev raw) \<noteq> []"
    unfolding line_body_def by (metis rev.simps(1))
  have "last (line_body raw) = hd (dropWhile is_space (rev raw))"
    by (simp add: line_body_def last_rev)
  then have "\<not> is_space (last (line_body raw))"
    using hd_dropWhile [OF ne] by simp
  then show "\<not> is_space (last (join tab (word dl # pinyin_field dl # remaining_columns dl)))"
    using b dl by simp
qed

lemma correct_line_unchanged:
  assumes "parse_data_line raw = Some dl" and "\<not> changed (decide tbl seps dl)"
  shows "correct_line tbl seps raw = raw"
  using assms serialize_parse [OF assms(1)] by (simp add: correct_line_def Let_def)

lemma correct_line_changed:
  assumes "parse_data_line raw = Some dl"
      and "tbl (word dl) = Some (first, others)"
      and "takeWhile (\<lambda>c. c \<notin> set seps) (pinyin_field dl) \<notin> set (first # others)"
  shows "correct_line tbl seps raw =
           serialize (dl\<lparr>pinyin_field :=
                          first @ dropWhile (\<lambda>c. c \<notin> set seps) (pinyin_field dl)\<rparr>)"
  using assms(1)
    decide_changed [where tbl = tbl and dl = dl and first = first and others = others
      and seps = seps, OF assms(2,3)]
  by (simp add: correct_line_def Let_def)

lemma takeWhile_corrected:
  assumes "\<forall>c \<in> set first. c \<notin> set seps"
  shows "takeWhile (\<lambda>c. c \<notin> set seps) (first @ dropWhile (\<lambda>c. c \<notin> set seps) field) = first"
proof -
  have "takeWhile (\<lambda>c. c \<notin> set seps) (dropWhile (\<lambda>c. c \<notin> set seps) field) = []"
    by (induction field) auto
  then show ?thesis
    using takeWhile_append2 [of first "\<lambda>c. c \<notin> set seps"] assms by simp
qed

lemma reparse_corrected:
  assumes p: "parse_data_line raw = Some dl"
      and tok: "plain_token seps first"
  shows "parse_data_line
           (serialize (dl\<lparr>pinyin_field :=
                            first @ dropWhile (\<lambda>c. c \<notin> set seps) (pinyin_field dl)\<rparr>))
         = Some (dl\<lparr>pinyin_field :=
                       first @ dropWhile (\<lambda>c. c \<notin> set seps) (pinyin_field dl)\<rparr>)"
proof -
  let ?tail = "dropWhile (\<lambda>c. c \<notin> set seps) (pinyin_field dl)"
  let ?nf = "first @ ?tail"
  note f = parse_facts [OF p]
  have "set ?tail \<subseteq> set (pinyin_field dl)"
    by (meson set_dropWhileD subsetI)
  then have notab: "\<forall>x \<in> set (word dl # ?nf # remaining_columns dl). tab \<notin> set x"
    using f(1) tok by (auto simp: plain_token_def)
  have old: "\<not> is_space (if last (pinyin_field dl # remaining_columns dl) = [] then tab
                            else last (last (pinyin_field dl # remaining_columns dl)))"
    using f(3) unfolding last_join [of tab "word dl" "pinyin_field dl" "remaining_columns dl"] .
  have "\<not> is_space (if last (?nf # remaining_columns dl) = [] then tab
                       else last (last (?nf # remaining_columns dl)))"
  proof (cases "remaining_columns dl = []")
    case False
    then show ?thesis using old by (auto split: if_splits)
  next
    case True
    show ?thesis
    proof (cases "?tail = []")
      case False
      then have "pinyin_field dl \<noteq> []" by auto
      moreover have "last (pinyin_field dl) = last ?tail"
        using False by (metis last_appendR takeWhile_dropWhile_id)
      ultimately show ?thesis using old True False by (auto split: if_splits)
    next
      case nil: True
      have "\<not> is_space tab" by (simp add: is_space_def tab_def)
      moreover have "first \<noteq> [] \<Longrightarrow> \<not> is_space (last first)"
        using tok last_in_set [of first] by (auto simp: plain_token_def)
      ultimately show ?thesis using True nil by (auto split: if_splits)
    qed
  qed
  then have "\<not> is_space (last (join tab (word dl # ?nf # remaining_columns dl)))"
    unfolding last_join [of tab "word dl" ?nf "remaining_columns dl"] .
  from parse_built [OF notab f(2) this] show ?thesis
    by (simp add: serialize_def)
qed

lemma correct_line_idempotent:
  assumes "\<forall>w first others. tbl w = Some (first, others) \<longrightarrow> plain_token seps first"
  shows "correct_line tbl seps (correct_line tbl seps raw) = correct_line tbl seps raw"
proof (cases "parse_data_line raw")
  case None
  then show ?thesis by (simp add: correct_line_def)
next
  case (Some dl)
  show ?thesis
  proof (cases "changed (decide tbl seps dl)")
    case False
    then show ?thesis using correct_line_unchanged [OF Some] by simp
  next
    case True
    then obtain first others where t: "tbl (word dl) = Some (first, others)"
      by (cases "tbl (word dl)") (auto simp: decide_def)
    let ?P = "\<lambda>c. c \<notin> set seps"
    have nb: "takeWhile ?P (pinyin_field dl) \<notin> set (first # others)"
      using True t decide_accepted [where tbl = tbl and dl = dl and first = first
          and others = others and seps = seps]
      by auto
    let ?dl = "dl\<lparr>pinyin_field := first @ dropWhile ?P (pinyin_field dl)\<rparr>"
    have tok: "plain_token seps first" using assms t by blast
    have out: "correct_line tbl seps raw = serialize ?dl"
      by (rule correct_line_changed [where tbl = tbl, OF Some t nb])
    have re: "parse_data_line (serialize ?dl) = Some ?dl"
      by (rule reparse_corrected [OF Some tok])
    have "takeWhile ?P (pinyin_field ?dl) = first"
      using takeWhile_corrected [of first seps "pinyin_field dl"] tok
      by (simp add: plain_token_def)
    then have "\<not> changed (decide tbl seps ?dl)"
      using decide_accepted [where tbl = tbl and dl = ?dl and first = first
          and others = others and seps = seps] t
      by simp
    from correct_line_unchanged [OF re this] show ?thesis using out by simp
  qed
qed

lemma correct_lines_idempotent:
  assumes "\<forall>w first others. tbl w = Some (first, others) \<longrightarrow> plain_token (separators fmt) first"
  shows "correct_lines fmt tbl in_header (correct_lines fmt tbl in_header ls)
         = correct_lines fmt tbl in_header ls"
proof (induction ls arbitrary: in_header)
  case Nil
  then show ?case by simp
next
  case (Cons raw rest)
  show ?case
    using Cons [of "\<not> is_delimiter fmt raw"] Cons [of False]
      correct_line_idempotent [OF assms, of raw]
    by simp
qed

lemmas engine_defs = correct_line_def parse_data_line_def line_body_def line_trailing_def
  is_space_def tab_def serialize_def decide_def split_auxiliary_def Let_def

lemma bei_parse:
  "parse_data_line bei_line =
     Some \<lparr>word = ''bei'', pinyin_field = ''bei;1'', remaining_columns = [''100''],
           trailing_whitespace = [CHR 0x0A]\<rparr>"
  by (simp add: bei_line_def engine_defs)

lemma bei_corrected:
  "correct_line bei_table '';['' bei_line
   = ''bei'' @ [tab] @ ''bei4;1'' @ [tab] @ ''100'' @ [CHR 0x0A]"
  by (simp add: bei_line_def bei_table_def engine_defs)

lemma semicolon_first_pass:
  "correct_line semicolon_table '';['' semicolon_line = ''w'' @ [tab] @ ''a;b''"
  by (simp add: semicolon_line_def semicolon_table_def engine_defs)

lemma semicolon_second_pass:
  "correct_line semicolon_table '';['' (''w'' @ [tab] @ ''a;b'') = ''w'' @ [tab] @ ''a;b;b''"
  by (simp add: semicolon_table_def engine_defs)

text \<open>
  C1. A data line whose word is not a key of the Override Table is left as it is: the
  decision is \<open>changed = False\<close> and the output line equals the input line, byte for byte.
\<close>

theorem absent_word_passes_through:
  assumes "parse_data_line raw = Some dl" and "tbl (word dl) = None"
  shows "\<not> changed (decide tbl seps dl) \<and> correct_line tbl seps raw = raw"
proof -
  have "\<not> changed (decide tbl seps dl)"
    using assms(2) by (simp add: decide_absent)
  then show ?thesis using correct_line_unchanged [OF assms(1)] by simp
qed

theorem absent_word_passes_through_witness:
  "correct_line Map.empty '';['' bei_line = bei_line"
  using absent_word_passes_through [OF bei_parse, of Map.empty "'';[''"] by simp

text \<open>
  C4. Parsing a raw data line and serializing the \<open>DataLine\<close> with no field changed gives
  the raw line back, byte for byte: the columns are those of the line, in their order and
  number, and the trailing whitespace is that of the line.
\<close>

theorem unmodified_line_round_trip:
  assumes "parse_data_line raw = Some dl"
  shows "serialize dl = raw
       \<and> join tab (word dl # pinyin_field dl # remaining_columns dl) @ trailing_whitespace dl = raw
       \<and> word dl # pinyin_field dl # remaining_columns dl = split_on tab (line_body raw)
       \<and> trailing_whitespace dl = line_trailing raw"
proof -
  have "serialize dl = raw"
    by (rule serialize_parse [OF assms])
  moreover have "word dl # pinyin_field dl # remaining_columns dl = split_on tab (line_body raw)"
    "trailing_whitespace dl = line_trailing raw"
    using assms by (auto simp: parse_data_line_def split: list.splits)
  ultimately show ?thesis by (simp add: serialize_def)
qed

theorem unmodified_line_round_trip_witness:
  "serialize \<lparr>word = ''bei'', pinyin_field = ''bei;1'', remaining_columns = [''100''],
              trailing_whitespace = [CHR 0x0A]\<rparr> = bei_line"
  by (rule unmodified_line_round_trip [OF bei_parse, THEN conjunct1])

text \<open>
  C5. For a data line whose word is in the Override Table and whose base pinyin is none of
  the accepted pronunciations, the decision is \<open>changed = True\<close>; the new pinyin field is
  the first accepted pronunciation, followed by the separator character and the auxiliary
  suffix of the old field when it had one; the output line differs from the input line in
  the pinyin column only.
\<close>

theorem correction_keeps_auxiliary:
  assumes "parse_data_line raw = Some dl"
      and "tbl (word dl) = Some (first, others)"
      and "base (split_auxiliary seps (pinyin_field dl)) \<notin> set (first # others)"
  shows "let sp = split_auxiliary seps (pinyin_field dl); d = decide tbl seps dl in
           changed d
           \<and> (auxiliary sp = None \<longrightarrow>
                 pinyin_field dl = base sp \<and> new_pinyin_field d = first)
           \<and> (\<forall>aux. auxiliary sp = Some aux \<longrightarrow>
                 (\<exists>c. separator_char sp = Some c \<and> c \<in> set seps
                      \<and> pinyin_field dl = base sp @ c # aux
                      \<and> new_pinyin_field d = first @ c # aux))
           \<and> correct_line tbl seps raw =
               join tab (word dl # new_pinyin_field d # remaining_columns dl)
               @ trailing_whitespace dl"
proof -
  let ?P = "\<lambda>c. c \<notin> set seps"
  let ?sp = "split_auxiliary seps (pinyin_field dl)"
  have nb: "takeWhile ?P (pinyin_field dl) \<notin> set (first # others)"
    using assms(3) unfolding base_split_auxiliary .
  have d: "decide tbl seps dl =
      \<lparr>changed = True, new_pinyin_field = first @ dropWhile ?P (pinyin_field dl)\<rparr>"
    by (rule decide_changed [where tbl = tbl, OF assms(2) nb])
  have out: "correct_line tbl seps raw =
      join tab (word dl # (first @ dropWhile ?P (pinyin_field dl)) # remaining_columns dl)
      @ trailing_whitespace dl"
    using correct_line_changed [where tbl = tbl, OF assms(1,2) nb] by (simp add: serialize_def)
  have none: "pinyin_field dl = base ?sp \<and> dropWhile ?P (pinyin_field dl) = []"
    if "auxiliary ?sp = None"
  proof (cases "dropWhile ?P (pinyin_field dl)")
    case Nil
    show ?thesis unfolding split_auxiliary_def Nil by simp
  next
    case (Cons c rest)
    show ?thesis using that unfolding split_auxiliary_def Cons by simp
  qed
  have some: "\<exists>c. separator_char ?sp = Some c \<and> c \<in> set seps
        \<and> pinyin_field dl = base ?sp @ c # aux
        \<and> dropWhile ?P (pinyin_field dl) = c # aux"
    if "auxiliary ?sp = Some aux" for aux
  proof (cases "dropWhile ?P (pinyin_field dl)")
    case Nil
    show ?thesis using that unfolding split_auxiliary_def Nil by simp
  next
    case (Cons c rest)
    have "c \<in> set seps"
      using hd_dropWhile [of ?P "pinyin_field dl"] Cons by simp
    moreover have "pinyin_field dl = takeWhile ?P (pinyin_field dl) @ c # rest"
      using takeWhile_dropWhile_id [of ?P "pinyin_field dl"] Cons by simp
    ultimately show ?thesis using that Cons unfolding split_auxiliary_def Cons by simp
  qed
  show ?thesis
    unfolding Let_def using d out none some by auto
qed

theorem correction_keeps_auxiliary_witness:
  "new_pinyin_field (decide bei_table '';['' 
      \<lparr>word = ''bei'', pinyin_field = ''bei;1'', remaining_columns = [''100''],
       trailing_whitespace = [CHR 0x0A]\<rparr>) = ''bei4;1''
   \<and> correct_line bei_table '';['' bei_line
       = ''bei'' @ [tab] @ ''bei4;1'' @ [tab] @ ''100'' @ [CHR 0x0A]"
proof -
  let ?dl = "\<lparr>word = ''bei'', pinyin_field = ''bei;1'', remaining_columns = [''100''],
              trailing_whitespace = [CHR 0x0A]\<rparr>"
  have t: "bei_table (word ?dl) = Some (''bei4'', [])"
    by (simp add: bei_table_def)
  have sp: "split_auxiliary '';['' ''bei;1''
      = \<lparr>base = ''bei'', auxiliary = Some ''1'', separator_char = Some (CHR '';'')\<rparr>"
    by (simp add: split_auxiliary_def)
  have b: "base (split_auxiliary '';['' (pinyin_field ?dl)) \<notin> set [''bei4'']"
    by (simp add: sp)
  from correction_keeps_auxiliary [where tbl = bei_table, OF bei_parse t b]
  show ?thesis by (simp add: Let_def sp)
qed

text \<open>
  C6 (as amended). When the first accepted pronunciation of every word of the Override
  Table holds no separator character and no whitespace, running the engine on its own
  output changes no line. Without the condition on separator characters the claim fails:
  a corrected field is split again at the separator inside the pronunciation, as the
  example after the theorem shows.
\<close>

theorem second_pass_changes_nothing:
  assumes "\<forall>w first others. tbl w = Some (first, others) \<longrightarrow> plain_token (separators fmt) first"
  shows "correct_lines fmt tbl in_header (correct_lines fmt tbl in_header ls)
         = correct_lines fmt tbl in_header ls"
  by (rule correct_lines_idempotent [OF assms])

theorem second_pass_changes_nothing_witness:
  "correct_lines rime_format bei_table True [''...'' @ [CHR 0x0A], bei_line]
     = [''...'' @ [CHR 0x0A], ''bei'' @ [tab] @ ''bei4;1'' @ [tab] @ ''100'' @ [CHR 0x0A]]
   \<and> correct_lines rime_format bei_table True
       [''...'' @ [CHR 0x0A], ''bei'' @ [tab] @ ''bei4;1'' @ [tab] @ ''100'' @ [CHR 0x0A]]
     = [''...'' @ [CHR 0x0A], ''bei'' @ [tab] @ ''bei4;1'' @ [tab] @ ''100'' @ [CHR 0x0A]]"
proof -
  have h: "\<forall>w first others. bei_table w = Some (first, others)
             \<longrightarrow> plain_token (separators rime_format) first"
    by (simp add: bei_table_def rime_format_def plain_token_def tab_def is_space_def)
  have d: "is_delimiter rime_format (''...'' @ [CHR 0x0A])"
    by (simp add: rime_format_def line_body_def is_space_def)
  have c: "\<not> prefix (comment_marker rime_format) bei_line"
    by (simp add: rime_format_def bei_line_def)
  have first: "correct_lines rime_format bei_table True [''...'' @ [CHR 0x0A], bei_line]
     = [''...'' @ [CHR 0x0A], ''bei'' @ [tab] @ ''bei4;1'' @ [tab] @ ''100'' @ [CHR 0x0A]]"
    using d c bei_corrected by (simp add: rime_format_def)
  from second_pass_changes_nothing [OF h, of True "[''...'' @ [CHR 0x0A], bei_line]"]
  show ?thesis unfolding first by simp
qed

theorem second_pass_counterexample:
  "correct_lines rime_format semicolon_table False [semicolon_line] = [''w'' @ [tab] @ ''a;b'']
   \<and> correct_lines rime_format semicolon_table False [''w'' @ [tab] @ ''a;b'']
       = [''w'' @ [tab] @ ''a;b;b'']
   \<and> correct_lines rime_format semicolon_table False
         (correct_lines rime_format semicolon_table False [semicolon_line])
       \<noteq> correct_lines rime_format semicolon_table False [semicolon_line]"
  using semicolon_first_pass semicolon_second_pass
  by (simp add: rime_format_def semicolon_line_def)

end
